theory Spec2Isabelle
  imports Main
begin

section \<open>The Andon board of \<^verbatim>\<open>src/App.jsx\<close>\<close>

text \<open>
  The component keeps a list of reports (\<^verbatim>\<open>useState([])\<close>), merges into it the snapshot
  of \<^verbatim>\<open>GET /reports\<close>, the push events \<^verbatim>\<open>newReport\<close> and \<^verbatim>\<open>resolveReport\<close> and the
  acknowledged reply of \<^verbatim>\<open>POST /report\<close>, and renders one cell per station of the fixed
  table \<^verbatim>\<open>productionAreas\<close>. Every state update of the source is a function from the
  previous value to the next one (\<^verbatim>\<open>setReports((prev) => ...)\<close>); the model keeps that
  shape.
\<close>

subsection \<open>Reports\<close>

text \<open>
  A report is the JSON object the backend sends. The field \<^verbatim>\<open>_id\<close> is written \<open>id'\<close> and
  \<^verbatim>\<open>section\<close> is written \<open>section'\<close>. The status is the string of the source
  (\<^verbatim>\<open>"red"\<close>, \<^verbatim>\<open>"yellow"\<close>, \<^verbatim>\<open>"green"\<close>, or whatever the backend sent). The timestamp is
  \<^verbatim>\<open>null\<close> (\<open>None\<close>) or an instant, held as milliseconds since the epoch.
\<close>

record report =
  id' :: string
  loop :: string
  section' :: string
  status :: string
  assigned :: string
  remark :: string
  timestamp :: "int option"

text \<open>The pair the dashboard looks a report up by (\<^verbatim>\<open>r.loop === loop && r.section === section\<close>).\<close>

definition stationKey :: "report \<Rightarrow> string \<times> string" where
  "stationKey r = (loop r, section' r)"

subsection \<open>The report store\<close>

text \<open>
  \<^verbatim>\<open>
  socket.on("newReport", (newReport) => {
    setReports((prev) => {
      const updatedReports = prev.map((r) => r._id === newReport._id ? newReport : r);
      return updatedReports.some(r => r._id === newReport._id)
        ? updatedReports : [...updatedReports, newReport];
    });
  });
  \<close>
\<close>

definition onNewReport :: "report \<Rightarrow> report list \<Rightarrow> report list" where
  "onNewReport nr prev =
     (let updatedReports = map (\<lambda>r. if id' r = id' nr then nr else r) prev
      in if list_ex (\<lambda>r. id' r = id' nr) updatedReports
         then updatedReports
         else updatedReports @ [nr])"

text \<open>
  \<^verbatim>\<open>
  socket.on("resolveReport", ({ id }) => {
    setReports((prev) =>
      prev.map((r) => (r._id === id ? { ...r, status: "green", remark: "", timestamp: null } : r)));
  });
  \<close>
\<close>

definition onResolveReport :: "string \<Rightarrow> report list \<Rightarrow> report list" where
  "onResolveReport i prev =
     map (\<lambda>r. if id' r = i then r\<lparr>status := ''green'', remark := '''', timestamp := None\<rparr> else r)
       prev"

text \<open>
  The acknowledged submit, the \<^verbatim>\<open>then\<close> branch of \<^verbatim>\<open>sendReport\<close> (its second statement,
  \<^verbatim>\<open>setRemark("")\<close>, is in \<open>step\<close> below):
  \<^verbatim>\<open>setReports((prev) => [...prev.filter((r) => r._id !== data._id), data])\<close>.
\<close>

definition sendReportThen :: "report \<Rightarrow> report list \<Rightarrow> report list" where
  "sendReportThen data prev = filter (\<lambda>r. id' r \<noteq> id' data) prev @ [data]"

text \<open>The snapshot: \<^verbatim>\<open>.then(({ data }) => setReports(data))\<close> puts the list in as it is.\<close>

definition loadSnapshot :: "report list \<Rightarrow> report list \<Rightarrow> report list" where
  "loadSnapshot data prev = data"

text \<open>The two upsert events, and a run of them in arrival order.\<close>

datatype upsert = NewReport report | SubmitAck report

fun applyUpsert :: "upsert \<Rightarrow> report list \<Rightarrow> report list" where
  "applyUpsert (NewReport r) prev = onNewReport r prev"
| "applyUpsert (SubmitAck r) prev = sendReportThen r prev"

fun applyUpserts :: "upsert list \<Rightarrow> report list \<Rightarrow> report list" where
  "applyUpserts [] store = store"
| "applyUpserts (e # es) store = applyUpserts es (applyUpsert e store)"

text \<open>The report an upsert event carries.\<close>

fun payload :: "upsert \<Rightarrow> report" where
  "payload (NewReport r) = r"
| "payload (SubmitAck r) = r"

subsection \<open>Elapsed time\<close>

text \<open>
  The text of a JavaScript number that is an integer, as a template literal prints it:
  decimal digits, with a minus sign in front of a negative one. The numbers here are
  differences of instants in seconds, far below \<open>2^53\<close>, where the source's floating-point
  arithmetic is exact; they are modelled as \<open>int\<close>.
\<close>

definition digitChar :: "nat \<Rightarrow> char" where
  "digitChar d = ''0123456789'' ! d"

fun digits :: "nat \<Rightarrow> string" where
  "digits n = (if n < 10 then [digitChar n] else digits (n div 10) @ [digitChar (n mod 10)])"

declare digits.simps [simp del]

definition toString :: "int \<Rightarrow> string" where
  "toString i = (if i < 0 then ''-'' @ digits (nat (- i)) else digits (nat i))"

text \<open>
  \<^verbatim>\<open>new Date(new Date(x).toLocaleString("en-US", { timeZone: "Asia/Manila" }))\<close> prints
  the instant as Manila wall-clock time, which has whole seconds only, and reads the text
  back as a time of the viewer's own zone. Both steps depend on time-zone rules that are not
  part of the program; they are parameters of the model. Instants are milliseconds since the
  epoch. A wall-clock reading is held as the number of seconds from the reading
  1970-01-01 00:00:00 to it. \<open>manilaWall\<close> takes an instant, in seconds, to the reading of a
  clock in Manila at that instant; \<open>viewerInstant\<close> takes a reading to the instant, in
  seconds, at which a clock in the viewer's zone shows it.
\<close>

record zones =
  manilaWall :: "int \<Rightarrow> int"
  viewerInstant :: "int \<Rightarrow> int"

definition manilaTime :: "zones \<Rightarrow> int \<Rightarrow> int" where
  "manilaTime z ms = viewerInstant z (manilaWall z (ms div 1000)) * 1000"

text \<open>
  Two environments. In the first the viewer is in Manila and Manila keeps its offset of
  eight hours, as it has since 1990. In the second the viewer is in New York around
  10 March 2024: the clocks there, five hours behind UTC, jump from 02:00 to 03:00 and are
  four hours behind from then on (the reading 03:00 of that day is \<open>1710039600\<close>).
\<close>

definition manilaViewer :: zones where
  "manilaViewer = \<lparr>manilaWall = (\<lambda>t. t + 28800), viewerInstant = (\<lambda>w. w - 28800)\<rparr>"


text \<open>
  \<^verbatim>\<open>
  const timeAgo = (timestamp) => {
    if (!timestamp) return "";
    const now = new Date(new Date().toLocaleString("en-US", { timeZone: "Asia/Manila" }));
    const reportTime = new Date(new Date(timestamp).toLocaleString(...));
    const diffInSeconds = Math.floor((now - reportTime) / 1000);
    if (diffInSeconds < 60) return `${diffInSeconds}s ago`;
    if (diffInSeconds < 3600) return `${Math.floor(diffInSeconds / 60)}m ago`;
    if (diffInSeconds < 86400) return `${Math.floor(diffInSeconds / 3600)}hr ago`;
    return `${Math.floor(diffInSeconds / 86400)}d ago`;
  };
  \<close>
  The time-zone rules are the first argument and the wall clock read by \<^verbatim>\<open>new Date()\<close> is
  the second.
\<close>

definition timeAgo :: "zones \<Rightarrow> int \<Rightarrow> int option \<Rightarrow> string" where
  "timeAgo z clock ts =
     (case ts of
        None \<Rightarrow> ''''
      | Some t \<Rightarrow>
          (let now = manilaTime z clock;
               reportTime = manilaTime z t;
               diffInSeconds = (now - reportTime) div 1000
           in if diffInSeconds < 60 then toString diffInSeconds @ ''s ago''
              else if diffInSeconds < 3600 then toString (diffInSeconds div 60) @ ''m ago''
              else if diffInSeconds < 86400 then toString (diffInSeconds div 3600) @ ''hr ago''
              else toString (diffInSeconds div 86400) @ ''d ago''))"

subsection \<open>The dashboard\<close>

text \<open>
  The station table. \<^verbatim>\<open>Object.entries\<close> lists the keys of an object literal in the order
  they are written (none of them is an array index), so the table is an association list.
\<close>

definition productionAreas :: "(string \<times> string list) list" where
  "productionAreas =
     [(''Loop 1'', [''A&T'', ''TMA'', ''SUBA/CONA'']),
      (''Loop 2'', [''BSA SOFT'', ''BSA HARD'', ''EDM LASER'', ''FIT/NULL'']),
      (''Loop 3'', [''SBC MACH'', ''SBC DEBUR'']),
      (''Loop 4'', [''SB'', ''GMC'']),
      (''Quality'', [''RI'', ''ZEISS'']),
      (''Planning'', [''STOCKROOM'', ''SHIPPING''])]"

text \<open>
  What one \<^verbatim>\<open>grid-item\<close> shows: the station's name, the status class after
  \<^verbatim>\<open>grid-item\<close>, the remark paragraph and the age paragraph when they are rendered, and
  the id the Resolve button passes to \<^verbatim>\<open>confirmResolve\<close> when the button is rendered.
\<close>

record cell =
  station :: string
  className :: string
  remarkText :: "string option"
  timestampText :: "string option"
  resolveBtn :: "string option"

text \<open>
  \<^verbatim>\<open>
  const report = reports.find((r) => r.loop === loop && r.section === section);
  <div className={`grid-item ${report ? report.status : "green"}`}>
    {section}
    {report && report.status !== "green" && (<>
        {report.remark && <p className="remark-text">... {report.remark}</p>}
        {report.timestamp && <p className="timestamp-text">...{timeAgo(report.timestamp)}...</p>}
        <button className="resolve-btn" onClick={() => confirmResolve(report._id)}>Resolve</button>
    </>)}
  </div>
  \<close>
\<close>

definition gridItem :: "zones \<Rightarrow> int \<Rightarrow> report list \<Rightarrow> string \<Rightarrow> string \<Rightarrow> cell" where
  "gridItem z clock rs lp sec =
     (case find (\<lambda>r. loop r = lp \<and> section' r = sec) rs of
        None \<Rightarrow>
          \<lparr>station = sec, className = ''green'', remarkText = None, timestampText = None,
           resolveBtn = None\<rparr>
      | Some rep \<Rightarrow>
          if status rep \<noteq> ''green''
          then \<lparr>station = sec, className = status rep,
                remarkText = (if remark rep \<noteq> '''' then Some (remark rep) else None),
                timestampText =
                  (case timestamp rep of None \<Rightarrow> None | Some t \<Rightarrow> Some (timeAgo z clock (Some t))),
                resolveBtn = Some (id' rep)\<rparr>
          else \<lparr>station = sec, className = status rep, remarkText = None, timestampText = None,
                resolveBtn = None\<rparr>)"

text \<open>\<^verbatim>\<open>Object.entries(productionAreas).map(([loop, sections]) => ... sections.map(...))\<close>\<close>

definition dashboard :: "zones \<Rightarrow> int \<Rightarrow> report list \<Rightarrow> (string \<times> cell list) list" where
  "dashboard z clock rs =
     map (\<lambda>(lp, sections). (lp, map (gridItem z clock rs lp) sections)) productionAreas"

subsection \<open>The component: state, events and effects\<close>

text \<open>
  The state is the seven \<^verbatim>\<open>useState\<close> cells of \<^verbatim>\<open>App\<close>; the remark of the input field is
  written \<open>remark'\<close>. \<^verbatim>\<open>selectedReportId\<close> is \<^verbatim>\<open>null\<close> (\<open>None\<close>) or an id.
\<close>

record app =
  reports :: "report list"
  selectedLoop :: string
  selectedSection :: string
  remark' :: string
  currentTime :: int
  showModal :: bool
  selectedReportId :: "string option"

text \<open>
  The initial values of the cells; \<^verbatim>\<open>productionAreas["Loop 1"][0]\<close> is \<^verbatim>\<open>"A&T"\<close>, and the
  clock starts at the instant of the first render.
\<close>

definition initialApp :: "int \<Rightarrow> app" where
  "initialApp t0 =
     \<lparr>reports = [], selectedLoop = ''Loop 1'', selectedSection = ''A&T'', remark' = '''',
      currentTime = t0, showModal = False, selectedReportId = None\<rparr>"

text \<open>
  What a handler does besides updating the state: a request to the backend, or a line
  written with \<^verbatim>\<open>console.error\<close>. The body of \<^verbatim>\<open>POST /report\<close> is
  \<^verbatim>\<open>{loop, section, status, assigned, remark}\<close>, in that order below.
\<close>

datatype request =
    GetReports
  | PostReport string string string string string
  | PostResolve string

datatype effect = Request request | ConsoleError string

text \<open>How a request's promise settles: with the reply's \<^verbatim>\<open>data\<close>, or with an error.\<close>

datatype 'a settled = Fulfilled 'a | Rejected string

text \<open>
  \<^verbatim>\<open>const confirmResolve = (id) => { setSelectedReportId(id); setShowModal(true); };\<close>
\<close>

definition confirmResolve :: "string \<Rightarrow> app \<Rightarrow> app" where
  "confirmResolve i s = s\<lparr>selectedReportId := Some i, showModal := True\<rparr>"

text \<open>
  \<^verbatim>\<open>
  const resolveReport = async () => {
    if (!selectedReportId) return;
    try {
      await axios.post(`${backendURL}/resolve/${selectedReportId}`);
      setShowModal(false);
      setSelectedReportId(null);
    } catch (error) {
      console.error("Error resolving report:", error);
    }
  };
  \<close>
  The function runs in two parts: up to the \<^verbatim>\<open>await\<close> when Yes is clicked, where it sends
  the request unless the staged id is \<^verbatim>\<open>null\<close> or the empty string, and from the
  \<^verbatim>\<open>await\<close> on when the request settles.
\<close>

definition resolveReport :: "app \<Rightarrow> app \<times> effect list" where
  "resolveReport s =
     (case selectedReportId s of
        None \<Rightarrow> (s, [])
      | Some i \<Rightarrow> if i = '''' then (s, []) else (s, [Request (PostResolve i)]))"

definition resolveReportSettled :: "unit settled \<Rightarrow> app \<Rightarrow> app \<times> effect list" where
  "resolveReportSettled res s =
     (case res of
        Fulfilled u \<Rightarrow> (s\<lparr>showModal := False, selectedReportId := None\<rparr>, [])
      | Rejected e \<Rightarrow> (s, [ConsoleError (''Error resolving report: '' @ e)]))"

text \<open>The Cancel button of the modal: \<^verbatim>\<open>onClick={() => setShowModal(false)}\<close>.\<close>

definition cancel :: "app \<Rightarrow> app" where
  "cancel s = s\<lparr>showModal := False\<rparr>"

text \<open>
  \<^verbatim>\<open>
  const sendReport = (status) => {
    axios.post(`${backendURL}/report`, { loop: selectedLoop, section: selectedSection, status,
      assigned: "John Doe", remark: remark,
    }).then(({ data }) => {
      setReports((prev) => [...prev.filter((r) => r._id !== data._id), data]);
      setRemark("");
    }).catch(error => console.error("Error sending report:", error));
  };
  \<close>
\<close>

definition sendReport :: "string \<Rightarrow> app \<Rightarrow> app \<times> effect list" where
  "sendReport st s =
     (s, [Request (PostReport (selectedLoop s) (selectedSection s) st ''John Doe'' (remark' s))])"

definition sendReportSettled :: "report settled \<Rightarrow> app \<Rightarrow> app \<times> effect list" where
  "sendReportSettled res s =
     (case res of
        Fulfilled data \<Rightarrow> (s\<lparr>reports := sendReportThen data (reports s), remark' := ''''\<rparr>, [])
      | Rejected e \<Rightarrow> (s, [ConsoleError (''Error sending report: '' @ e)]))"

text \<open>
  The snapshot request of the first effect,
  \<^verbatim>\<open>axios.get(`${backendURL}/reports`).then(({ data }) => setReports(data))\<close>: the promise
  has a \<^verbatim>\<open>then\<close> and no \<^verbatim>\<open>catch\<close>, so a rejection runs no code of the component.
\<close>

definition snapshotSettled :: "report list settled \<Rightarrow> app \<Rightarrow> app \<times> effect list" where
  "snapshotSettled res s =
     (case res of
        Fulfilled data \<Rightarrow> (s\<lparr>reports := loadSnapshot data (reports s)\<rparr>, [])
      | Rejected e \<Rightarrow> (s, []))"

text \<open>
  The loop selector:
  \<^verbatim>\<open>setSelectedLoop(newLoop); setSelectedSection(productionAreas[newLoop][0]);\<close>. Its
  options are the keys of the table; for any other value the second statement throws, after
  the first has run.
\<close>

definition changeLoop :: "string \<Rightarrow> app \<Rightarrow> app" where
  "changeLoop newLoop s =
     (case map_of productionAreas newLoop of
        Some (sec # secs) \<Rightarrow> s\<lparr>selectedLoop := newLoop, selectedSection := sec\<rparr>
      | _ \<Rightarrow> s\<lparr>selectedLoop := newLoop\<rparr>)"

text \<open>Everything that can happen to the mounted component.\<close>

datatype event =
    SnapshotSettled "report list settled"
  | PushNewReport report
  | PushResolveReport string
  | ClickStatus string
  | SendSettled "report settled"
  | ClickResolve string
  | ClickYes
  | ResolveSettled "unit settled"
  | ClickCancel
  | ChangeLoop string
  | ChangeSection string
  | ChangeRemark string
  | Tick int

fun step :: "event \<Rightarrow> app \<Rightarrow> app \<times> effect list" where
  "step (SnapshotSettled res) s = snapshotSettled res s"
| "step (PushNewReport r) s = (s\<lparr>reports := onNewReport r (reports s)\<rparr>, [])"
| "step (PushResolveReport i) s = (s\<lparr>reports := onResolveReport i (reports s)\<rparr>, [])"
| "step (ClickStatus st) s = sendReport st s"
| "step (SendSettled res) s = sendReportSettled res s"
| "step (ClickResolve i) s = (confirmResolve i s, [])"
| "step ClickYes s = resolveReport s"
| "step (ResolveSettled res) s = resolveReportSettled res s"
| "step ClickCancel s = (cancel s, [])"
| "step (ChangeLoop l) s = (changeLoop l s, [])"
| "step (ChangeSection sec) s = (s\<lparr>selectedSection := sec\<rparr>, [])"
| "step (ChangeRemark r) s = (s\<lparr>remark' := r\<rparr>, [])"
| "step (Tick t) s = (s\<lparr>currentTime := t\<rparr>, [])"

text \<open>The state after a run of events, from the first render on.\<close>

fun run :: "event list \<Rightarrow> app \<Rightarrow> app" where
  "run [] s = s"
| "run (e # es) s = run es (fst (step e s))"

text \<open>
  The resolve-confirmation flow, read off the state: the modal (\<^verbatim>\<open>{showModal && ...}\<close>) is
  hidden, or it is shown for a staged id.
\<close>

definition Idle :: "app \<Rightarrow> bool" where
  "Idle s = (\<not> showModal s)"

definition PendingConfirmation :: "string \<Rightarrow> app \<Rightarrow> bool" where
  "PendingConfirmation i s = (showModal s \<and> selectedReportId s = Some i)"

text \<open>The part of the state the flow lives in.\<close>

definition flow :: "app \<Rightarrow> bool \<times> string option" where
  "flow s = (showModal s, selectedReportId s)"

text \<open>Whether an event is one of the flow's own.\<close>

fun flowEvent :: "event \<Rightarrow> bool" where
  "flowEvent (ClickResolve i) = True"
| "flowEvent (ResolveSettled res) = True"
| "flowEvent ClickCancel = True"
| "flowEvent e = False"

text \<open>What is rendered from the state: the dashboard, and whether the modal is there.\<close>

definition render :: "zones \<Rightarrow> int \<Rightarrow> app \<Rightarrow> (string \<times> cell list) list \<times> bool" where
  "render z clock s = (dashboard z clock (reports s), showModal s)"

section \<open>Properties\<close>

subsection \<open>Replacing by id\<close>

lemma list_ex_replace:
  "list_ex (\<lambda>r. id' r = id' nr) (map (\<lambda>r. if id' r = id' nr then nr else r) prev) =
   list_ex (\<lambda>r. id' r = id' nr) prev"
  by (induction prev) simp_all

lemma replace_absent:
  "\<not> list_ex (\<lambda>r. id' r = i) prev \<Longrightarrow> map (\<lambda>r. if id' r = i then f r else r) prev = prev"
  by (induction prev) simp_all

lemma replace_idem:
  "map (\<lambda>r. if id' r = id' nr then nr else r) (map (\<lambda>r. if id' r = id' nr then nr else r) prev) =
   map (\<lambda>r. if id' r = id' nr then nr else r) prev"
  by (induction prev) simp_all

lemma map_ids_replace:
  "map id' (map (\<lambda>r. if id' r = id' nr then nr else r) prev) = map id' prev"
  by (induction prev) simp_all

lemma set_replace:
  "set (map (\<lambda>r. if id' r = id' nr then nr else r) prev) \<subseteq> insert nr (set prev)"
  by (induction prev) auto

lemma list_ex_ids: "list_ex (\<lambda>r. id' r = i) prev = (i \<in> set (map id' prev))"
  by (induction prev) (simp_all add: eq_commute)

subsection \<open>The push handler for new reports\<close>

lemma onNewReport_present:
  "list_ex (\<lambda>r. id' r = id' nr) prev \<Longrightarrow>
     onNewReport nr prev = map (\<lambda>r. if id' r = id' nr then nr else r) prev"
  by (simp add: onNewReport_def Let_def list_ex_replace)

lemma onNewReport_absent:
  "\<not> list_ex (\<lambda>r. id' r = id' nr) prev \<Longrightarrow> onNewReport nr prev = prev @ [nr]"
  by (simp add: onNewReport_def Let_def list_ex_replace replace_absent)

lemma onNewReport_ids:
  "map id' (onNewReport nr prev) =
     (if id' nr \<in> set (map id' prev) then map id' prev else map id' prev @ [id' nr])"
proof (cases "list_ex (\<lambda>r. id' r = id' nr) prev")
  case True
  then show ?thesis
    by (simp only: onNewReport_present map_ids_replace list_ex_ids [symmetric] if_True)
next
  case False
  then have "id' nr \<notin> set (map id' prev)" by (simp add: list_ex_ids del: set_map)
  then show ?thesis
    by (simp add: onNewReport_absent [OF False] del: set_map)
qed

lemma onNewReport_distinct:
  "distinct (map id' prev) \<Longrightarrow> distinct (map id' (onNewReport nr prev))"
  by (simp add: onNewReport_ids del: set_map)

lemma set_onNewReport: "set (onNewReport nr prev) \<subseteq> insert nr (set prev)"
proof (cases "list_ex (\<lambda>r. id' r = id' nr) prev")
  case True
  then show ?thesis by (simp only: onNewReport_present set_replace)
next
  case False
  then show ?thesis by (simp add: onNewReport_absent)
qed

subsection \<open>The acknowledged submit\<close>

lemma sendReportThen_distinct:
  "distinct (map id' prev) \<Longrightarrow> distinct (map id' (sendReportThen data prev))"
proof -
  assume "distinct (map id' prev)"
  then have "distinct (map id' (filter (\<lambda>r. id' r \<noteq> id' data) prev))"
    by (rule distinct_map_filter)
  moreover have "id' data \<notin> id' ` set (filter (\<lambda>r. id' r \<noteq> id' data) prev)"
    by (simp add: image_iff eq_commute [of "id' data"])
  ultimately show ?thesis by (simp add: sendReportThen_def)
qed

lemma set_sendReportThen: "set (sendReportThen data prev) \<subseteq> insert data (set prev)"
  by (simp add: sendReportThen_def subset_insertI2)

subsection \<open>Runs of upsert events\<close>

lemma applyUpsert_distinct:
  "distinct (map id' store) \<Longrightarrow> distinct (map id' (applyUpsert e store))"
  by (cases e) (simp_all only: applyUpsert.simps onNewReport_distinct sendReportThen_distinct)

lemma set_applyUpsert: "set (applyUpsert e store) \<subseteq> insert (payload e) (set store)"
  by (cases e) (simp_all only: applyUpsert.simps payload.simps set_onNewReport set_sendReportThen)

lemma applyUpserts_distinct:
  "distinct (map id' store) \<Longrightarrow> distinct (map id' (applyUpserts es store))"
  by (induction es arbitrary: store) (simp_all only: applyUpserts.simps applyUpsert_distinct)

lemma set_applyUpserts: "set (applyUpserts es store) \<subseteq> set store \<union> payload ` set es"
proof (induction es arbitrary: store)
  case Nil
  show ?case by simp
next
  case (Cons e es)
  have "set (applyUpserts es (applyUpsert e store)) \<subseteq> set (applyUpsert e store) \<union> payload ` set es"
    by (rule Cons.IH)
  also have "\<dots> \<subseteq> insert (payload e) (set store) \<union> payload ` set es"
    using set_applyUpsert [of e store] by blast
  finally show ?case by auto
qed

lemma distinct_keys_from_ids:
  assumes d: "distinct (map id' xs)"
    and k: "\<And>x y. x \<in> set xs \<Longrightarrow> y \<in> set xs \<Longrightarrow> stationKey x = stationKey y \<Longrightarrow> id' x = id' y"
  shows "distinct (map stationKey xs)"
proof -
  from d have dx: "distinct xs" and inj: "inj_on id' (set xs)"
    by (simp_all add: distinct_map)
  have "inj_on stationKey (set xs)"
  proof (rule inj_onI)
    fix x y
    assume x: "x \<in> set xs" and y: "y \<in> set xs" and e: "stationKey x = stationKey y"
    then have "id' x = id' y" by (rule k)
    with inj show "x = y" using x y by (rule inj_onD)
  qed
  with dx show ?thesis by (simp add: distinct_map)
qed

lemma filter_other_ids:
  "id' r \<notin> set (map id' store) \<Longrightarrow> filter (\<lambda>x. id' x \<noteq> id' r) store = store"
  by (induction store) (simp_all add: eq_commute [of "id' r"])

text \<open>
  Claim C1, as the code has it. The handlers match entries by \<^verbatim>\<open>_id\<close> alone. From the empty
  store, after a snapshot in which no two entries share an id, followed by any run of upsert
  events, no two entries of the store share an id. If moreover the backend gives every
  station one id (any two of the reports delivered that agree on group and station agree on
  the id), then no two entries share a StationKey either. An incoming report whose id no
  entry of the store has is appended at the end, whatever its group and station, also when
  an entry of the store has the same group and station. An incoming report whose id an
  entry has takes the place of every entry with that id: where they stand for a
  \<^verbatim>\<open>newReport\<close> event, and at the end, the entries with that id removed, for an acknowledged
  submit.
\<close>

theorem upserts_keep_ids_distinct:
  assumes "distinct (map id' data)"
  shows "distinct (map id' (applyUpserts es (loadSnapshot data []))) \<and>
    ((\<forall>x \<in> set data \<union> payload ` set es. \<forall>y \<in> set data \<union> payload ` set es.
        stationKey x = stationKey y \<longrightarrow> id' x = id' y) \<longrightarrow>
     distinct (map stationKey (applyUpserts es (loadSnapshot data [])))) \<and>
    (id' r \<notin> set (map id' store) \<longrightarrow>
       applyUpsert (NewReport r) store = store @ [r] \<and>
       applyUpsert (SubmitAck r) store = store @ [r]) \<and>
    (id' r \<in> set (map id' store) \<longrightarrow>
       applyUpsert (NewReport r) store = map (\<lambda>x. if id' x = id' r then r else x) store \<and>
       applyUpsert (SubmitAck r) store = filter (\<lambda>x. id' x \<noteq> id' r) store @ [r])"
proof -
  let ?S = "applyUpserts es (loadSnapshot data [])"
  have ids: "distinct (map id' ?S)"
    using assms by (simp only: loadSnapshot_def applyUpserts_distinct)
  have sub: "set ?S \<subseteq> set data \<union> payload ` set es"
    by (simp only: loadSnapshot_def set_applyUpserts)
  have "distinct (map stationKey ?S)"
    if h: "\<forall>x \<in> set data \<union> payload ` set es. \<forall>y \<in> set data \<union> payload ` set es.
        stationKey x = stationKey y \<longrightarrow> id' x = id' y"
  proof (rule distinct_keys_from_ids [OF ids])
    fix x y
    assume "x \<in> set ?S" "y \<in> set ?S" "stationKey x = stationKey y"
    with sub h show "id' x = id' y" by blast
  qed
  then have keys: "(\<forall>x \<in> set data \<union> payload ` set es. \<forall>y \<in> set data \<union> payload ` set es.
        stationKey x = stationKey y \<longrightarrow> id' x = id' y) \<longrightarrow>
     distinct (map stationKey ?S)"
    by blast
  have new: "id' r \<notin> set (map id' store) \<longrightarrow>
       applyUpsert (NewReport r) store = store @ [r] \<and>
       applyUpsert (SubmitAck r) store = store @ [r]"
  proof (intro impI conjI)
    assume n: "id' r \<notin> set (map id' store)"
    then have "\<not> list_ex (\<lambda>x. id' x = id' r) store"
      by (simp add: list_ex_ids del: set_map)
    then show "applyUpsert (NewReport r) store = store @ [r]"
      unfolding applyUpsert.simps by (rule onNewReport_absent)
    from n have "filter (\<lambda>x. id' x \<noteq> id' r) store = store"
      by (rule filter_other_ids)
    then show "applyUpsert (SubmitAck r) store = store @ [r]"
      by (simp only: applyUpsert.simps sendReportThen_def)
  qed
  have known: "id' r \<in> set (map id' store) \<longrightarrow>
       applyUpsert (NewReport r) store = map (\<lambda>x. if id' x = id' r then r else x) store \<and>
       applyUpsert (SubmitAck r) store = filter (\<lambda>x. id' x \<noteq> id' r) store @ [r]"
  proof (intro impI conjI)
    assume "id' r \<in> set (map id' store)"
    then have "list_ex (\<lambda>x. id' x = id' r) store"
      by (simp add: list_ex_ids del: set_map)
    then show "applyUpsert (NewReport r) store =
        map (\<lambda>x. if id' x = id' r then r else x) store"
      unfolding applyUpsert.simps by (rule onNewReport_present)
    show "applyUpsert (SubmitAck r) store = filter (\<lambda>x. id' x \<noteq> id' r) store @ [r]"
      by (simp only: applyUpsert.simps sendReportThen_def)
  qed
  from ids keys new known show ?thesis by (intro conjI)
qed

theorem upserts_keep_ids_distinct_witness:
  "distinct (map id'
      [\<lparr>id' = ''a'', loop = ''Loop 1'', section' = ''A&T'', status = ''red'',
        assigned = ''John Doe'', remark = ''jam'', timestamp = Some 0\<rparr>]) \<and>
   distinct (map id'
     (applyUpserts
        [NewReport \<lparr>id' = ''b'', loop = ''Loop 1'', section' = ''TMA'',
           status = ''yellow'', assigned = ''John Doe'', remark = '''',
           timestamp = Some 1000\<rparr>,
         SubmitAck \<lparr>id' = ''a'', loop = ''Loop 1'', section' = ''A&T'',
           status = ''green'', assigned = ''John Doe'', remark = '''',
           timestamp = None\<rparr>]
        (loadSnapshot
           [\<lparr>id' = ''a'', loop = ''Loop 1'', section' = ''A&T'',
           status = ''red'', assigned = ''John Doe'', remark = ''jam'',
           timestamp = Some 0\<rparr>] []))) \<and>
   distinct (map stationKey
     (applyUpserts
        [NewReport \<lparr>id' = ''b'', loop = ''Loop 1'', section' = ''TMA'',
           status = ''yellow'', assigned = ''John Doe'', remark = '''',
           timestamp = Some 1000\<rparr>,
         SubmitAck \<lparr>id' = ''a'', loop = ''Loop 1'', section' = ''A&T'',
           status = ''green'', assigned = ''John Doe'', remark = '''',
           timestamp = None\<rparr>]
        (loadSnapshot
           [\<lparr>id' = ''a'', loop = ''Loop 1'', section' = ''A&T'',
           status = ''red'', assigned = ''John Doe'', remark = ''jam'',
           timestamp = Some 0\<rparr>] []))) \<and>
   id' \<lparr>id' = ''c'', loop = ''Loop 1'', section' = ''A&T'',
        status = ''yellow'', assigned = ''John Doe'', remark = '''',
        timestamp = Some 1000\<rparr>
     \<notin> set (map id'
      [\<lparr>id' = ''a'', loop = ''Loop 1'', section' = ''A&T'', status = ''red'',
        assigned = ''John Doe'', remark = ''jam'', timestamp = Some 0\<rparr>]) \<and>
   applyUpsert
     (NewReport \<lparr>id' = ''c'', loop = ''Loop 1'', section' = ''A&T'',
           status = ''yellow'', assigned = ''John Doe'', remark = '''',
           timestamp = Some 1000\<rparr>)
      [\<lparr>id' = ''a'', loop = ''Loop 1'', section' = ''A&T'', status = ''red'',
        assigned = ''John Doe'', remark = ''jam'', timestamp = Some 0\<rparr>] =
      [\<lparr>id' = ''a'', loop = ''Loop 1'', section' = ''A&T'', status = ''red'',
        assigned = ''John Doe'', remark = ''jam'', timestamp = Some 0\<rparr>,
       \<lparr>id' = ''c'', loop = ''Loop 1'', section' = ''A&T'',
        status = ''yellow'', assigned = ''John Doe'', remark = '''',
        timestamp = Some 1000\<rparr>] \<and>
   id' \<lparr>id' = ''a'', loop = ''Loop 1'', section' = ''A&T'',
        status = ''green'', assigned = ''John Doe'', remark = '''',
        timestamp = None\<rparr>
     \<in> set (map id'
      [\<lparr>id' = ''a'', loop = ''Loop 1'', section' = ''A&T'', status = ''red'',
        assigned = ''John Doe'', remark = ''jam'', timestamp = Some 0\<rparr>]) \<and>
   applyUpsert
     (NewReport \<lparr>id' = ''a'', loop = ''Loop 1'', section' = ''A&T'',
           status = ''green'', assigned = ''John Doe'', remark = '''',
           timestamp = None\<rparr>)
      [\<lparr>id' = ''a'', loop = ''Loop 1'', section' = ''A&T'', status = ''red'',
        assigned = ''John Doe'', remark = ''jam'', timestamp = Some 0\<rparr>] =
      [\<lparr>id' = ''a'', loop = ''Loop 1'', section' = ''A&T'',
        status = ''green'', assigned = ''John Doe'', remark = '''',
        timestamp = None\<rparr>]"
proof -
  let ?a = "\<lparr>id' = ''a'', loop = ''Loop 1'', section' = ''A&T'',
           status = ''red'', assigned = ''John Doe'', remark = ''jam'',
           timestamp = Some 0\<rparr>"
  let ?a2 = "\<lparr>id' = ''a'', loop = ''Loop 1'', section' = ''A&T'',
           status = ''green'', assigned = ''John Doe'', remark = '''',
           timestamp = None\<rparr>"
  let ?c = "\<lparr>id' = ''c'', loop = ''Loop 1'', section' = ''A&T'',
           status = ''yellow'', assigned = ''John Doe'', remark = '''',
           timestamp = Some 1000\<rparr>"
  let ?es = "[NewReport \<lparr>id' = ''b'', loop = ''Loop 1'', section' = ''TMA'',
           status = ''yellow'', assigned = ''John Doe'', remark = '''',
           timestamp = Some 1000\<rparr>,
         SubmitAck \<lparr>id' = ''a'', loop = ''Loop 1'', section' = ''A&T'',
           status = ''green'', assigned = ''John Doe'', remark = '''',
           timestamp = None\<rparr>]"
  have d: "distinct (map id' [?a])" by simp
  have h: "\<forall>x \<in> set [?a] \<union> payload ` set ?es. \<forall>y \<in> set [?a] \<union> payload ` set ?es.
        stationKey x = stationKey y \<longrightarrow> id' x = id' y"
    by (simp add: stationKey_def)
  have n: "id' ?c \<notin> set (map id' [?a])" by simp
  have k: "id' ?a2 \<in> set (map id' [?a])" by simp
  note run = upserts_keep_ids_distinct [OF d, of ?es]
  note new = upserts_keep_ids_distinct [OF d, where r = ?c and store = "[?a]"]
  note known = upserts_keep_ids_distinct [OF d, where r = ?a2 and store = "[?a]"]
  from run h have r1: "distinct (map id' (applyUpserts ?es (loadSnapshot [?a] [])))"
    and r2: "distinct (map stationKey (applyUpserts ?es (loadSnapshot [?a] [])))"
    by blast+
  from new n have r3: "applyUpsert (NewReport ?c) [?a] = [?a] @ [?c]"
    by blast
  from known k have "applyUpsert (NewReport ?a2) [?a] =
      map (\<lambda>x. if id' x = id' ?a2 then ?a2 else x) [?a]"
    by blast
  then have r4: "applyUpsert (NewReport ?a2) [?a] = [?a2]"
    by simp
  from d r1 r2 n r3 k r4 show ?thesis by simp
qed

text \<open>
  Claim C1 as it is stated fails: two \<^verbatim>\<open>newReport\<close> events for the station
  (Loop 1, A&T) with the ids \<^verbatim>\<open>a\<close> and \<^verbatim>\<open>b\<close> leave two entries for that station; the
  second is appended, it does not replace the first.
\<close>

theorem upserts_duplicate_station_counterexample:
  "\<not> distinct (map stationKey
       (applyUpserts
          [NewReport \<lparr>id' = ''a'', loop = ''Loop 1'', section' = ''A&T'', status = ''red'',
             assigned = ''John Doe'', remark = ''jam'', timestamp = Some 0\<rparr>,
           NewReport \<lparr>id' = ''b'', loop = ''Loop 1'', section' = ''A&T'', status = ''yellow'',
             assigned = ''John Doe'', remark = '''', timestamp = Some 1000\<rparr>]
          (loadSnapshot [] [])))"
  by (simp add: loadSnapshot_def onNewReport_def stationKey_def)

text \<open>
  Claim C5: applying the same \<^verbatim>\<open>newReport\<close> event twice gives the store that applying it
  once gives, whatever the store was.
\<close>

theorem onNewReport_idempotent: "onNewReport nr (onNewReport nr prev) = onNewReport nr prev"
proof (cases "list_ex (\<lambda>r. id' r = id' nr) prev")
  case True
  then have ex: "list_ex (\<lambda>r. id' r = id' nr) (map (\<lambda>r. if id' r = id' nr then nr else r) prev)"
    by (simp only: list_ex_replace)
  show ?thesis
    by (simp only: onNewReport_present [OF True] onNewReport_present [OF ex] replace_idem)
next
  case False
  have ex: "list_ex (\<lambda>r. id' r = id' nr) (prev @ [nr])" by simp
  have "map (\<lambda>r. if id' r = id' nr then nr else r) (prev @ [nr]) = prev @ [nr]"
    using False by (simp add: replace_absent)
  then show ?thesis
    by (simp only: onNewReport_absent [OF False] onNewReport_present [OF ex])
qed

subsection \<open>The push handler for resolutions\<close>

text \<open>
  Claim C7: a \<^verbatim>\<open>resolveReport\<close> event for an id that no entry has leaves the store as it
  is. The handler is a \<^verbatim>\<open>map\<close>: it raises nothing and adds no entry.
\<close>

theorem onResolveReport_unknown_id:
  "i \<notin> set (map id' prev) \<Longrightarrow> onResolveReport i prev = prev"
proof -
  assume "i \<notin> set (map id' prev)"
  then have "\<not> list_ex (\<lambda>r. id' r = i) prev"
    by (simp add: list_ex_ids del: set_map)
  then show ?thesis
    unfolding onResolveReport_def by (rule replace_absent)
qed

theorem onResolveReport_unknown_id_witness:
  "''zz'' \<notin> set (map id'
      [\<lparr>id' = ''a'', loop = ''Loop 1'', section' = ''A&T'', status = ''red'',
         assigned = ''John Doe'', remark = ''jam'', timestamp = Some 0\<rparr>]) \<and>
   onResolveReport ''zz''
      [\<lparr>id' = ''a'', loop = ''Loop 1'', section' = ''A&T'', status = ''red'',
         assigned = ''John Doe'', remark = ''jam'', timestamp = Some 0\<rparr>] =
      [\<lparr>id' = ''a'', loop = ''Loop 1'', section' = ''A&T'', status = ''red'',
         assigned = ''John Doe'', remark = ''jam'', timestamp = Some 0\<rparr>]"
proof -
  have h: "''zz'' \<notin> set (map id'
      [\<lparr>id' = ''a'', loop = ''Loop 1'', section' = ''A&T'', status = ''red'',
         assigned = ''John Doe'', remark = ''jam'', timestamp = Some 0\<rparr>])"
    by simp
  from onResolveReport_unknown_id [OF h] h show ?thesis by blast
qed

text \<open>
  Claim C6: a \<^verbatim>\<open>resolveReport\<close> event for the id of the entry at position \<open>k\<close> keeps the
  store's length, sets that entry's status to \<^verbatim>\<open>"green"\<close>, its remark to the empty string
  and its timestamp to \<^verbatim>\<open>null\<close> at the same position, keeps its id, its group and station
  and its assignee, and leaves every entry with another id as it is.
\<close>

theorem onResolveReport_present:
  assumes "k < length prev" and "id' (prev ! k) = i"
  shows "length (onResolveReport i prev) = length prev \<and>
    status (onResolveReport i prev ! k) = ''green'' \<and>
    remark (onResolveReport i prev ! k) = '''' \<and>
    timestamp (onResolveReport i prev ! k) = None \<and>
    id' (onResolveReport i prev ! k) = id' (prev ! k) \<and>
    stationKey (onResolveReport i prev ! k) = stationKey (prev ! k) \<and>
    assigned (onResolveReport i prev ! k) = assigned (prev ! k) \<and>
    (\<forall>j < length prev. id' (prev ! j) \<noteq> i \<longrightarrow> onResolveReport i prev ! j = prev ! j)"
  using assms by (simp add: onResolveReport_def stationKey_def)

theorem onResolveReport_present_witness:
  "(1::nat) < length
      [\<lparr>id' = ''a'', loop = ''Loop 1'', section' = ''A&T'', status = ''red'',
         assigned = ''John Doe'', remark = ''jam'', timestamp = Some 0\<rparr>,
       \<lparr>id' = ''b'', loop = ''Loop 2'', section' = ''FIT/NULL'', status = ''yellow'',
         assigned = ''John Doe'', remark = ''late'', timestamp = Some 5000\<rparr>] \<and>
   onResolveReport ''b''
      [\<lparr>id' = ''a'', loop = ''Loop 1'', section' = ''A&T'', status = ''red'',
         assigned = ''John Doe'', remark = ''jam'', timestamp = Some 0\<rparr>,
       \<lparr>id' = ''b'', loop = ''Loop 2'', section' = ''FIT/NULL'', status = ''yellow'',
         assigned = ''John Doe'', remark = ''late'', timestamp = Some 5000\<rparr>] =
      [\<lparr>id' = ''a'', loop = ''Loop 1'', section' = ''A&T'', status = ''red'',
         assigned = ''John Doe'', remark = ''jam'', timestamp = Some 0\<rparr>,
       \<lparr>id' = ''b'', loop = ''Loop 2'', section' = ''FIT/NULL'', status = ''green'',
         assigned = ''John Doe'', remark = '''', timestamp = None\<rparr>] \<and>
   status (onResolveReport ''b''
      [\<lparr>id' = ''a'', loop = ''Loop 1'', section' = ''A&T'', status = ''red'',
         assigned = ''John Doe'', remark = ''jam'', timestamp = Some 0\<rparr>,
       \<lparr>id' = ''b'', loop = ''Loop 2'', section' = ''FIT/NULL'', status = ''yellow'',
         assigned = ''John Doe'', remark = ''late'', timestamp = Some 5000\<rparr>] ! 1) = ''green''"
proof -
  let ?xs = "[\<lparr>id' = ''a'', loop = ''Loop 1'', section' = ''A&T'', status = ''red'',
         assigned = ''John Doe'', remark = ''jam'', timestamp = Some 0\<rparr>,
       \<lparr>id' = ''b'', loop = ''Loop 2'', section' = ''FIT/NULL'', status = ''yellow'',
         assigned = ''John Doe'', remark = ''late'', timestamp = Some 5000\<rparr>]"
  have k: "(1::nat) < length ?xs" by simp
  have i: "id' (?xs ! 1) = ''b''" by simp
  have e: "onResolveReport ''b'' ?xs =
      [\<lparr>id' = ''a'', loop = ''Loop 1'', section' = ''A&T'', status = ''red'',
         assigned = ''John Doe'', remark = ''jam'', timestamp = Some 0\<rparr>,
       \<lparr>id' = ''b'', loop = ''Loop 2'', section' = ''FIT/NULL'', status = ''green'',
         assigned = ''John Doe'', remark = '''', timestamp = None\<rparr>]"
    by (simp add: onResolveReport_def)
  from onResolveReport_present [OF k i] k e show ?thesis by blast
qed

subsection \<open>Elapsed time\<close>








subsection \<open>The dashboard\<close>

lemma find_absent: "\<not> list_ex P xs \<Longrightarrow> find P xs = None"
  by (induction xs) simp_all

lemma find_first: "\<not> list_ex P pre \<Longrightarrow> P x \<Longrightarrow> find P (pre @ x # post) = Some x"
  by (induction pre) simp_all

lemma station_gridItem: "station (gridItem z clock rs lp sec) = sec"
  by (simp add: gridItem_def split: option.split)

lemma stations_of_cells: "map (station \<circ> gridItem z clock rs lp) secs = secs"
  by (induction secs) (simp_all add: station_gridItem)

lemma groups_of_table:
  "map fst (map (\<lambda>(lp, secs). (lp, map (gridItem z clock rs lp) secs)) tab) = map fst tab"
  by (induction tab) (simp_all add: case_prod_beta)

lemma stations_of_table:
  "map (\<lambda>g. map station (snd g)) (map (\<lambda>(lp, secs). (lp, map (gridItem z clock rs lp) secs)) tab) =
   map snd tab"
  by (induction tab) (simp_all add: case_prod_beta stations_of_cells)

lemma cell_of_table:
  assumes "g < length tab" and "k < length (snd (tab ! g))"
  shows "snd (map (\<lambda>(lp, secs). (lp, map (gridItem z clock rs lp) secs)) tab ! g) ! k =
    gridItem z clock rs (fst (tab ! g)) (snd (tab ! g) ! k)"
  using assms by (simp add: case_prod_beta)

lemma gridItem_absent:
  "\<not> list_ex (\<lambda>r. loop r = lp \<and> section' r = sec) rs \<Longrightarrow>
     gridItem z clock rs lp sec =
       \<lparr>station = sec, className = ''green'', remarkText = None, timestampText = None,
        resolveBtn = None\<rparr>"
  by (simp add: gridItem_def find_absent)

lemma gridItem_present:
  assumes "find (\<lambda>r. loop r = lp \<and> section' r = sec) rs = Some rep"
  shows "className (gridItem z clock rs lp sec) = status rep"
    and "remarkText (gridItem z clock rs lp sec) =
      (if status rep \<noteq> ''green'' \<and> remark rep \<noteq> '''' then Some (remark rep) else None)"
    and "timestampText (gridItem z clock rs lp sec) =
      (if status rep \<noteq> ''green'' \<and> timestamp rep \<noteq> None
       then Some (timeAgo z clock (timestamp rep)) else None)"
    and "resolveBtn (gridItem z clock rs lp sec) =
      (if status rep \<noteq> ''green'' then Some (id' rep) else None)"
  using assms by (simp_all add: gridItem_def split: option.split)

text \<open>
  Claim C8: whatever the store holds and in whatever order, the dashboard has the groups of
  the table in the table's order and, in each group, one cell per station of the table in the
  table's order, the cell of a station being \<open>gridItem\<close> of that group and station. A station
  with no entry in the store is \<^verbatim>\<open>green\<close> with no remark and no age label. A station with
  an entry shows the entry's status; it shows the remark exactly when the status is not
  \<^verbatim>\<open>green\<close> and the remark is not empty, and the age label exactly when the status is not
  \<^verbatim>\<open>green\<close> and the timestamp is not \<^verbatim>\<open>null\<close>.
\<close>

theorem dashboard_cells:
  "map fst (dashboard z clock rs) = map fst productionAreas \<and>
   map (\<lambda>g. map station (snd g)) (dashboard z clock rs) = map snd productionAreas \<and>
   (\<forall>g < length productionAreas. \<forall>k < length (snd (productionAreas ! g)).
      snd (dashboard z clock rs ! g) ! k =
        gridItem z clock rs (fst (productionAreas ! g)) (snd (productionAreas ! g) ! k)) \<and>
   (\<not> list_ex (\<lambda>r. loop r = lp \<and> section' r = sec) rs \<longrightarrow>
      gridItem z clock rs lp sec =
        \<lparr>station = sec, className = ''green'', remarkText = None, timestampText = None,
         resolveBtn = None\<rparr>) \<and>
   (find (\<lambda>r. loop r = lp \<and> section' r = sec) rs = Some rep \<longrightarrow>
      station (gridItem z clock rs lp sec) = sec \<and>
      className (gridItem z clock rs lp sec) = status rep \<and>
      remarkText (gridItem z clock rs lp sec) =
        (if status rep \<noteq> ''green'' \<and> remark rep \<noteq> '''' then Some (remark rep) else None) \<and>
      timestampText (gridItem z clock rs lp sec) =
        (if status rep \<noteq> ''green'' \<and> timestamp rep \<noteq> None
         then Some (timeAgo z clock (timestamp rep)) else None))"
proof -
  have groups: "map fst (dashboard z clock rs) = map fst productionAreas"
    unfolding dashboard_def by (rule groups_of_table)
  have stations: "map (\<lambda>g. map station (snd g)) (dashboard z clock rs) = map snd productionAreas"
    unfolding dashboard_def by (rule stations_of_table)
  have cells: "\<forall>g < length productionAreas. \<forall>k < length (snd (productionAreas ! g)).
      snd (dashboard z clock rs ! g) ! k =
        gridItem z clock rs (fst (productionAreas ! g)) (snd (productionAreas ! g) ! k)"
    unfolding dashboard_def by (intro allI impI) (rule cell_of_table)
  have absent: "\<not> list_ex (\<lambda>r. loop r = lp \<and> section' r = sec) rs \<longrightarrow>
      gridItem z clock rs lp sec =
        \<lparr>station = sec, className = ''green'', remarkText = None, timestampText = None,
         resolveBtn = None\<rparr>"
    by (intro impI) (rule gridItem_absent)
  have present: "find (\<lambda>r. loop r = lp \<and> section' r = sec) rs = Some rep \<longrightarrow>
      station (gridItem z clock rs lp sec) = sec \<and>
      className (gridItem z clock rs lp sec) = status rep \<and>
      remarkText (gridItem z clock rs lp sec) =
        (if status rep \<noteq> ''green'' \<and> remark rep \<noteq> '''' then Some (remark rep) else None) \<and>
      timestampText (gridItem z clock rs lp sec) =
        (if status rep \<noteq> ''green'' \<and> timestamp rep \<noteq> None
         then Some (timeAgo z clock (timestamp rep)) else None)"
    by (intro impI conjI) (simp_all only: station_gridItem gridItem_present)
  from groups stations cells absent present show ?thesis by (intro conjI)
qed

theorem dashboard_cells_witness:
  "find (\<lambda>r. loop r = ''Loop 1'' \<and> section' r = ''TMA'')
      [\<lparr>id' = ''a'', loop = ''Loop 1'', section' = ''TMA'', status = ''red'',
        assigned = ''John Doe'', remark = ''jam'',
        timestamp = Some 1730592000250\<rparr>] =
      Some \<lparr>id' = ''a'', loop = ''Loop 1'', section' = ''TMA'',
           status = ''red'', assigned = ''John Doe'', remark = ''jam'',
           timestamp = Some 1730592000250\<rparr> \<and>
   className (gridItem manilaViewer 1730592130999
      [\<lparr>id' = ''a'', loop = ''Loop 1'', section' = ''TMA'', status = ''red'',
        assigned = ''John Doe'', remark = ''jam'',
        timestamp = Some 1730592000250\<rparr>] ''Loop 1'' ''TMA'') = ''red'' \<and>
   remarkText (gridItem manilaViewer 1730592130999
      [\<lparr>id' = ''a'', loop = ''Loop 1'', section' = ''TMA'', status = ''red'',
        assigned = ''John Doe'', remark = ''jam'',
        timestamp = Some 1730592000250\<rparr>] ''Loop 1'' ''TMA'') = Some ''jam'' \<and>
   timestampText (gridItem manilaViewer 1730592130999
      [\<lparr>id' = ''a'', loop = ''Loop 1'', section' = ''TMA'', status = ''red'',
        assigned = ''John Doe'', remark = ''jam'',
        timestamp = Some 1730592000250\<rparr>] ''Loop 1'' ''TMA'') =
      Some (timeAgo manilaViewer 1730592130999 (Some 1730592000250)) \<and>
   \<not> list_ex (\<lambda>r. loop r = ''Loop 1'' \<and> section' r = ''A&T'')
      [\<lparr>id' = ''a'', loop = ''Loop 1'', section' = ''TMA'', status = ''red'',
        assigned = ''John Doe'', remark = ''jam'',
        timestamp = Some 1730592000250\<rparr>] \<and>
   gridItem manilaViewer 1730592130999
      [\<lparr>id' = ''a'', loop = ''Loop 1'', section' = ''TMA'', status = ''red'',
        assigned = ''John Doe'', remark = ''jam'',
        timestamp = Some 1730592000250\<rparr>] ''Loop 1'' ''A&T'' =
      \<lparr>station = ''A&T'', className = ''green'', remarkText = None,
       timestampText = None, resolveBtn = None\<rparr> \<and>
   snd (dashboard manilaViewer 1730592130999
      [\<lparr>id' = ''a'', loop = ''Loop 1'', section' = ''TMA'', status = ''red'',
        assigned = ''John Doe'', remark = ''jam'',
        timestamp = Some 1730592000250\<rparr>] ! 0) ! 1 =
      gridItem manilaViewer 1730592130999
      [\<lparr>id' = ''a'', loop = ''Loop 1'', section' = ''TMA'', status = ''red'',
        assigned = ''John Doe'', remark = ''jam'',
        timestamp = Some 1730592000250\<rparr>] ''Loop 1'' ''TMA''"
proof -
  let ?r = "\<lparr>id' = ''a'', loop = ''Loop 1'', section' = ''TMA'',
           status = ''red'', assigned = ''John Doe'', remark = ''jam'',
           timestamp = Some 1730592000250\<rparr>"
  have p: "find (\<lambda>r. loop r = ''Loop 1'' \<and> section' r = ''TMA'') [?r] = Some ?r"
    by simp
  have a: "\<not> list_ex (\<lambda>r. loop r = ''Loop 1'' \<and> section' r = ''A&T'') [?r]"
    by simp
  have g: "(0::nat) < length productionAreas" "(1::nat) < length (snd (productionAreas ! 0))"
    "fst (productionAreas ! 0) = ''Loop 1''" "snd (productionAreas ! 0) ! 1 = ''TMA''"
    by (simp_all add: productionAreas_def)
  note present = dashboard_cells [where z = manilaViewer and clock = 1730592130999 and rs = "[?r]"
      and lp = "''Loop 1''" and sec = "''TMA''" and rep = ?r]
  note absent = dashboard_cells [where z = manilaViewer and clock = 1730592130999 and rs = "[?r]"
      and lp = "''Loop 1''" and sec = "''A&T''" and rep = ?r]
  from present p have
    "className (gridItem manilaViewer 1730592130999 [?r] ''Loop 1'' ''TMA'') = status ?r"
    "remarkText (gridItem manilaViewer 1730592130999 [?r] ''Loop 1'' ''TMA'') =
      (if status ?r \<noteq> ''green'' \<and> remark ?r \<noteq> '''' then Some (remark ?r) else None)"
    "timestampText (gridItem manilaViewer 1730592130999 [?r] ''Loop 1'' ''TMA'') =
      (if status ?r \<noteq> ''green'' \<and> timestamp ?r \<noteq> None
       then Some (timeAgo manilaViewer 1730592130999 (timestamp ?r)) else None)"
    by blast+
  then have shown:
    "className (gridItem manilaViewer 1730592130999 [?r] ''Loop 1'' ''TMA'') = ''red''"
    "remarkText (gridItem manilaViewer 1730592130999 [?r] ''Loop 1'' ''TMA'') = Some ''jam''"
    "timestampText (gridItem manilaViewer 1730592130999 [?r] ''Loop 1'' ''TMA'') =
      Some (timeAgo manilaViewer 1730592130999 (Some 1730592000250))"
    by simp_all
  from absent a have green: "gridItem manilaViewer 1730592130999 [?r] ''Loop 1'' ''A&T'' =
      \<lparr>station = ''A&T'', className = ''green'', remarkText = None,
       timestampText = None, resolveBtn = None\<rparr>"
    by blast
  from present g(1,2) have
    "snd (dashboard manilaViewer 1730592130999 [?r] ! 0) ! 1 =
       gridItem manilaViewer 1730592130999 [?r] (fst (productionAreas ! 0)) (snd (productionAreas ! 0) ! 1)"
    by blast
  then have cell: "snd (dashboard manilaViewer 1730592130999 [?r] ! 0) ! 1 =
       gridItem manilaViewer 1730592130999 [?r] ''Loop 1'' ''TMA''"
    by (simp only: g)
  from p shown a green cell show ?thesis by (intro conjI)
qed

text \<open>
  Claim C10: when several entries of the store have a station's group and station, the
  station's cell shows the first of them in store order: its status as the class, its
  remark and its age when the status is not \<^verbatim>\<open>green\<close> and they are there, and its id behind
  the Resolve button. The entries before it, which are of other stations, and the entries
  after it, whatever they are, do not show in the cell.
\<close>

theorem gridItem_first_match:
  assumes "\<not> list_ex (\<lambda>r. loop r = lp \<and> section' r = sec) pre"
    and "loop rep = lp" and "section' rep = sec"
  shows "gridItem z clock (pre @ rep # post) lp sec =
     \<lparr>station = sec, className = status rep,
      remarkText =
        (if status rep \<noteq> ''green'' \<and> remark rep \<noteq> '''' then Some (remark rep) else None),
      timestampText =
        (if status rep \<noteq> ''green'' \<and> timestamp rep \<noteq> None
         then Some (timeAgo z clock (timestamp rep)) else None),
      resolveBtn = (if status rep \<noteq> ''green'' then Some (id' rep) else None)\<rparr>"
proof -
  have "find (\<lambda>r. loop r = lp \<and> section' r = sec) (pre @ rep # post) = Some rep"
    using assms by (simp add: find_first)
  then show ?thesis
    by (simp add: gridItem_def split: option.split)
qed

theorem gridItem_first_match_witness:
  "\<not> list_ex (\<lambda>r. loop r = ''Loop 1'' \<and> section' r = ''TMA'')
      [\<lparr>id' = ''c'', loop = ''Loop 2'', section' = ''FIT/NULL'',
        status = ''green'', assigned = ''John Doe'', remark = '''',
        timestamp = None\<rparr>] \<and>
   gridItem manilaViewer 1730592130999
      ([\<lparr>id' = ''c'', loop = ''Loop 2'', section' = ''FIT/NULL'',
         status = ''green'', assigned = ''John Doe'', remark = '''',
         timestamp = None\<rparr>] @
       \<lparr>id' = ''a'', loop = ''Loop 1'', section' = ''TMA'', status = ''red'',
        assigned = ''John Doe'', remark = ''jam'',
        timestamp = Some 1730592000250\<rparr> #
       [\<lparr>id' = ''b'', loop = ''Loop 1'', section' = ''TMA'',
         status = ''yellow'', assigned = ''John Doe'', remark = ''late'',
         timestamp = Some 1730592100000\<rparr>]) ''Loop 1'' ''TMA'' =
     \<lparr>station = ''TMA'', className = ''red'', remarkText = Some ''jam'',
      timestampText = Some (timeAgo manilaViewer 1730592130999 (Some 1730592000250)),
      resolveBtn = Some ''a''\<rparr>"
proof -
  let ?x = "\<lparr>id' = ''c'', loop = ''Loop 2'', section' = ''FIT/NULL'',
           status = ''green'', assigned = ''John Doe'', remark = '''',
           timestamp = None\<rparr>"
  let ?r = "\<lparr>id' = ''a'', loop = ''Loop 1'', section' = ''TMA'',
           status = ''red'', assigned = ''John Doe'', remark = ''jam'',
           timestamp = Some 1730592000250\<rparr>"
  have a: "\<not> list_ex (\<lambda>r. loop r = ''Loop 1'' \<and> section' r = ''TMA'') [?x]"
    by simp
  have l: "loop ?r = ''Loop 1''" and s: "section' ?r = ''TMA''"
    by simp_all
  from gridItem_first_match [OF a l s, of manilaViewer 1730592130999]
  have "gridItem manilaViewer 1730592130999
      ([?x] @ ?r #
       [\<lparr>id' = ''b'', loop = ''Loop 1'', section' = ''TMA'',
         status = ''yellow'', assigned = ''John Doe'', remark = ''late'',
         timestamp = Some 1730592100000\<rparr>]) ''Loop 1'' ''TMA'' =
     \<lparr>station = ''TMA'', className = ''red'', remarkText = Some ''jam'',
      timestampText = Some (timeAgo manilaViewer 1730592130999 (Some 1730592000250)),
      resolveBtn = Some ''a''\<rparr>"
    by simp
  with a show ?thesis by (intro conjI)
qed

subsection \<open>The snapshot request\<close>

lemma gridItem_empty:
  "gridItem z clock [] lp =
     (\<lambda>sec. \<lparr>station = sec, className = ''green'', remarkText = None, timestampText = None,
             resolveBtn = None\<rparr>)"
  by (rule ext) (simp add: gridItem_def)

lemma dashboard_empty:
  "dashboard z clock [] =
     map (\<lambda>(lp, secs).
            (lp, map (\<lambda>sec. \<lparr>station = sec, className = ''green'', remarkText = None,
                              timestampText = None, resolveBtn = None\<rparr>) secs))
       productionAreas"
  by (simp only: dashboard_def gridItem_empty)

text \<open>
  Claim C2, as the code has it. When the snapshot request fails, the state of the component
  is what it was before; from the first render that is the empty store, and the dashboard
  then shows every station of the table as \<^verbatim>\<open>green\<close> with no remark, no age label and no
  Resolve button. Nothing that is rendered tells a failed snapshot from an empty one.
\<close>

theorem snapshot_failure_keeps_state:
  "fst (step (SnapshotSettled (Rejected e)) s) = s \<and>
   render z clock (fst (step (SnapshotSettled (Rejected e)) s)) = render z clock s \<and>
   render z clock (fst (step (SnapshotSettled (Rejected e)) (initialApp t0))) =
     (map (\<lambda>(lp, secs).
             (lp, map (\<lambda>sec. \<lparr>station = sec, className = ''green'', remarkText = None,
                               timestampText = None, resolveBtn = None\<rparr>) secs))
        productionAreas, False)"
proof -
  have same: "fst (step (SnapshotSettled (Rejected e)) s) = s" for s
    by (simp add: snapshotSettled_def)
  have "render z clock (initialApp t0) =
     (map (\<lambda>(lp, secs).
             (lp, map (\<lambda>sec. \<lparr>station = sec, className = ''green'', remarkText = None,
                               timestampText = None, resolveBtn = None\<rparr>) secs))
        productionAreas, False)"
    by (simp add: render_def initialApp_def dashboard_empty)
  then show ?thesis by (simp only: same simp_thms)
qed

theorem snapshot_failure_keeps_state_witness:
  "reports (fst (step (SnapshotSettled (Rejected ''Network Error''))
      (fst (step (ChangeRemark ''jam'') (initialApp 0))))) = [] \<and>
   remark' (fst (step (SnapshotSettled (Rejected ''Network Error''))
      (fst (step (ChangeRemark ''jam'') (initialApp 0))))) = ''jam''"
proof -
  have "fst (step (SnapshotSettled (Rejected ''Network Error''))
      (fst (step (ChangeRemark ''jam'') (initialApp 0)))) =
      fst (step (ChangeRemark ''jam'') (initialApp 0))"
    using snapshot_failure_keeps_state
      [where e = "''Network Error''" and s = "fst (step (ChangeRemark ''jam'') (initialApp 0))"]
    by (rule conjunct1)
  then show ?thesis by (simp add: initialApp_def)
qed

text \<open>
  Claim C2 as it is stated fails: after a failed snapshot the component has written nothing
  and changed nothing, and the dashboard shows all fifteen stations as \<^verbatim>\<open>green\<close>.
\<close>

theorem snapshot_failure_counterexample:
  "step (SnapshotSettled (Rejected ''Network Error'')) (initialApp 0) = (initialApp 0, []) \<and>
   map (map className \<circ> snd)
     (fst (render manilaViewer 0 (fst (step (SnapshotSettled (Rejected ''Network Error'')) (initialApp 0))))) =
     [[''green'', ''green'', ''green''],
      [''green'', ''green'', ''green'', ''green''],
      [''green'', ''green''],
      [''green'', ''green''],
      [''green'', ''green''],
      [''green'', ''green'']]"
  by (simp add: snapshotSettled_def render_def initialApp_def dashboard_def gridItem_def
      productionAreas_def)

subsection \<open>The resolve-confirmation flow\<close>

lemma step_staged:
  assumes "showModal s \<longrightarrow> selectedReportId s \<noteq> None"
  shows "showModal (fst (step ev s)) \<longrightarrow> selectedReportId (fst (step ev s)) \<noteq> None"
proof (cases ev)
  case (SnapshotSettled res)
  with assms show ?thesis by (cases res) (simp_all add: snapshotSettled_def)
next
  case (SendSettled res)
  with assms show ?thesis by (cases res) (simp_all add: sendReportSettled_def)
next
  case (ResolveSettled res)
  with assms show ?thesis by (cases res) (simp_all add: resolveReportSettled_def)
next
  case ClickYes
  have "fst (step ClickYes s) = s"
    by (simp add: resolveReport_def split: option.split)
  with ClickYes assms show ?thesis by (simp only:)
next
  case (ChangeLoop l)
  with assms show ?thesis by (simp add: changeLoop_def split: option.split list.split)
qed (use assms in \<open>simp_all add: sendReport_def confirmResolve_def cancel_def\<close>)

lemma run_staged:
  "showModal s \<longrightarrow> selectedReportId s \<noteq> None \<Longrightarrow>
   showModal (run es s) \<longrightarrow> selectedReportId (run es s) \<noteq> None"
proof (induction es arbitrary: s)
  case Nil
  then show ?case by simp
next
  case (Cons ev es)
  from Cons.prems have "showModal (fst (step ev s)) \<longrightarrow> selectedReportId (fst (step ev s)) \<noteq> None"
    by (rule step_staged)
  then have "showModal (run es (fst (step ev s))) \<longrightarrow>
      selectedReportId (run es (fst (step ev s))) \<noteq> None"
    by (rule Cons.IH)
  then show ?case by (simp only: run.simps)
qed

lemma flow_unchanged:
  assumes "\<not> flowEvent ev"
  shows "flow (fst (step ev s)) = flow s"
proof (cases ev)
  case (SnapshotSettled res)
  then show ?thesis by (cases res) (simp_all add: snapshotSettled_def flow_def)
next
  case (SendSettled res)
  then show ?thesis by (cases res) (simp_all add: sendReportSettled_def flow_def)
next
  case ClickYes
  then show ?thesis by (simp add: resolveReport_def flow_def split: option.split)
next
  case (ChangeLoop l)
  then show ?thesis by (simp add: changeLoop_def flow_def split: option.split list.split)
qed (use assms in \<open>simp_all add: sendReport_def flow_def\<close>)

text \<open>
  Claim C3, as the code has it. From the first render on the flow is in exactly one of two
  states: Idle, the modal hidden, or PendingConfirmation of one id, the modal shown for the
  staged id. A click on Resolve for an id leads to PendingConfirmation of that id from any
  state. From PendingConfirmation of an id, the resolve request's success and a click on
  Cancel lead to Idle, and the request's failure leaves the flow in PendingConfirmation of
  the same id. From Idle both lead to Idle. No other event changes \<^verbatim>\<open>showModal\<close> or
  \<^verbatim>\<open>selectedReportId\<close>.
\<close>

theorem resolve_flow:
  "(Idle (run es (initialApp t0)) \<noteq> (\<exists>j. PendingConfirmation j (run es (initialApp t0)))) \<and>
   (PendingConfirmation i s \<and> PendingConfirmation j s \<longrightarrow> i = j) \<and>
   PendingConfirmation i (fst (step (ClickResolve i) s)) \<and>
   (PendingConfirmation i s \<longrightarrow>
      Idle (fst (step (ResolveSettled (Fulfilled ())) s)) \<and>
      PendingConfirmation i (fst (step (ResolveSettled (Rejected e)) s)) \<and>
      Idle (fst (step ClickCancel s))) \<and>
   (Idle s \<longrightarrow>
      Idle (fst (step (ResolveSettled res) s)) \<and> Idle (fst (step ClickCancel s))) \<and>
   (\<not> flowEvent ev \<longrightarrow> flow (fst (step ev s)) = flow s)"
proof -
  have "showModal (initialApp t0) \<longrightarrow> selectedReportId (initialApp t0) \<noteq> None"
    by (simp add: initialApp_def)
  then have "showModal (run es (initialApp t0)) \<longrightarrow>
      selectedReportId (run es (initialApp t0)) \<noteq> None"
    by (rule run_staged)
  then have two: "Idle (run es (initialApp t0)) \<noteq>
      (\<exists>j. PendingConfirmation j (run es (initialApp t0)))"
    by (auto simp: Idle_def PendingConfirmation_def)
  have one: "PendingConfirmation i s \<and> PendingConfirmation j s \<longrightarrow> i = j"
    unfolding PendingConfirmation_def by (metis option.inject)
  have request: "PendingConfirmation i (fst (step (ClickResolve i) s))"
    by (simp add: PendingConfirmation_def confirmResolve_def)
  have pending: "PendingConfirmation i s \<longrightarrow>
      Idle (fst (step (ResolveSettled (Fulfilled ())) s)) \<and>
      PendingConfirmation i (fst (step (ResolveSettled (Rejected e)) s)) \<and>
      Idle (fst (step ClickCancel s))"
    by (simp add: PendingConfirmation_def Idle_def resolveReportSettled_def cancel_def)
  have idle: "Idle s \<longrightarrow>
      Idle (fst (step (ResolveSettled res) s)) \<and> Idle (fst (step ClickCancel s))"
    by (cases res) (simp_all add: Idle_def resolveReportSettled_def cancel_def)
  have others: "\<not> flowEvent ev \<longrightarrow> flow (fst (step ev s)) = flow s"
    by (intro impI) (rule flow_unchanged)
  from two one request pending idle others show ?thesis by (intro conjI)
qed

theorem resolve_flow_witness:
  "PendingConfirmation ''r1'' (run [ClickResolve ''r1''] (initialApp 0)) \<and>
   Idle (fst (step (ResolveSettled (Fulfilled ())) (run [ClickResolve ''r1''] (initialApp 0)))) \<and>
   PendingConfirmation ''r1''
     (fst (step (ResolveSettled (Rejected ''Network Error''))
        (run [ClickResolve ''r1''] (initialApp 0)))) \<and>
   Idle (fst (step ClickCancel (run [ClickResolve ''r1''] (initialApp 0)))) \<and>
   Idle (initialApp 0) \<and>
   Idle (fst (step ClickCancel (initialApp 0))) \<and>
   \<not> flowEvent (Tick 5) \<and>
   flow (fst (step (Tick 5) (run [ClickResolve ''r1''] (initialApp 0)))) =
     flow (run [ClickResolve ''r1''] (initialApp 0))"
proof -
  let ?s = "run [ClickResolve ''r1''] (initialApp 0)"
  have p: "PendingConfirmation ''r1'' ?s"
    by (simp add: PendingConfirmation_def confirmResolve_def initialApp_def)
  have i: "Idle (initialApp 0)"
    by (simp add: Idle_def initialApp_def)
  have t: "\<not> flowEvent (Tick 5)"
    by simp
  note pending = resolve_flow [where s = ?s and i = "''r1''" and e = "''Network Error''"
      and ev = "Tick 5"]
  note idle = resolve_flow [where s = "initialApp 0"]
  from pending p have a:
    "Idle (fst (step (ResolveSettled (Fulfilled ())) ?s))"
    "PendingConfirmation ''r1'' (fst (step (ResolveSettled (Rejected ''Network Error'')) ?s))"
    "Idle (fst (step ClickCancel ?s))"
    by blast+
  from pending t have b: "flow (fst (step (Tick 5) ?s)) = flow ?s"
    by blast
  from idle i have c: "Idle (fst (step ClickCancel (initialApp 0)))"
    by blast
  from p a i c t b show ?thesis by (intro conjI)
qed

text \<open>
  Claim C3 as it is stated fails: a failed resolve request does not lead back to Idle. After
  Resolve on \<^verbatim>\<open>r1\<close>, Yes, and the failure of the request, the modal is still shown for
  \<^verbatim>\<open>r1\<close>.
\<close>

theorem resolve_failure_counterexample:
  "PendingConfirmation ''r1''
     (run [ClickResolve ''r1'', ClickYes, ResolveSettled (Rejected ''Network Error'')]
        (initialApp 0)) \<and>
   \<not> Idle
     (run [ClickResolve ''r1'', ClickYes, ResolveSettled (Rejected ''Network Error'')]
        (initialApp 0))"
  by (simp add: PendingConfirmation_def Idle_def initialApp_def confirmResolve_def
      resolveReport_def resolveReportSettled_def)

text \<open>
  Claim C4, at a staged id \<^verbatim>\<open>r1\<close>: after Resolve on \<^verbatim>\<open>r1\<close> and Cancel the modal
  is hidden, Cancel has sent nothing and the store is what it was, but \<^verbatim>\<open>selectedReportId\<close>
  still holds \<^verbatim>\<open>r1\<close>. The success branch of \<^verbatim>\<open>resolveReport\<close> sets it to \<^verbatim>\<open>null\<close>; Cancel does
  not.
\<close>

theorem cancel_keeps_staged_id:
  "selectedReportId (run [ClickResolve ''r1'', ClickCancel] (initialApp 0)) = Some ''r1'' \<and>
   selectedReportId
     (run [ClickResolve ''r1'', ClickYes, ResolveSettled (Fulfilled ())] (initialApp 0)) = None \<and>
   showModal (run [ClickResolve ''r1'', ClickCancel] (initialApp 0)) = False \<and>
   snd (step ClickCancel (run [ClickResolve ''r1''] (initialApp 0))) = [] \<and>
   reports (run [ClickResolve ''r1'', ClickCancel] (initialApp 0)) = reports (initialApp 0)"
  by (simp add: initialApp_def confirmResolve_def cancel_def resolveReport_def
      resolveReportSettled_def)

end
